theory Spec2Isabelle
  imports Main
begin

section \<open>The web client: \<open>src/app.tsx\<close>\<close>

subsection \<open>JavaScript numbers holding integers\<close>

text \<open>
  The signal of \<open>App\<close> holds a JavaScript \<open>number\<close>, an IEEE-754 double. The
  counter only ever holds integers, so the model keeps the numeric value as an \<open>int\<close>
  and writes out the rounding that \<open>+\<close> performs: an integer below \<open>2^53\<close> in
  magnitude is a double, and above that the doubles are \<open>ulp\<close> apart and a sum is
  rounded to the nearest one, a tie going to the even significand. (A sum beyond the
  largest double, near \<open>2^1024\<close>, would be infinite; no sum of the counter is.)
\<close>

function ulp :: "nat \<Rightarrow> nat" where
  "ulp m = (if m < 2 ^ 53 then 1 else 2 * ulp (m div 2))"
  by pat_completeness auto
termination
  by (relation "measure id") auto

definition round_to_double :: "int \<Rightarrow> int" where
  "round_to_double x =
     (if \<bar>x\<bar> < 2 ^ 53 then x
      else
        let u = int (ulp (nat \<bar>x\<bar>));
            q = \<bar>x\<bar> div u;
            r = \<bar>x\<bar> mod u;
            q' = (if 2 * r < u then q
                  else if u < 2 * r then q + 1
                  else if even q then q else q + 1)
        in sgn x * q' * u)"

definition js_add :: "int \<Rightarrow> int \<Rightarrow> int" where
  "js_add a b = round_to_double (a + b)"

subsection \<open>The \<open>App\<close> component\<close>

text \<open>
  \<open>const [count, setCount] = createSignal(0)\<close>: the state of the component is the
  value of its one signal. The button's handler is
  \<open>() => setCount(count() + 1)\<close>, and the button shows \<open>count()\<close>.
\<close>

record app =
  count :: int

definition App :: app where
  "App = \<lparr>count = 0\<rparr>"

definition setCount :: "int \<Rightarrow> app \<Rightarrow> app" where
  "setCount v s = s\<lparr>count := v\<rparr>"

definition onClick :: "app \<Rightarrow> app" where
  "onClick s = setCount (js_add (count s) 1) s"

definition clicks :: "nat \<Rightarrow> app" where
  "clicks n = (onClick ^^ n) App"

section \<open>The Conflict Resolver of the terminal workspace\<close>

text \<open>
  The README describes the keybinding conflict resolution of the terminal workspace
  (\<open>If you assign the same key to multiple actions, Clay will detect the conflict and
  help you resolve it before saving\<close>); its code is not among the source files. The
  definitions of this section follow section 3 and section 4.4 of the specification.
\<close>

text \<open>
  Modelled from the spec: the Keybinding type of the Action Registry, whose declaration is
  missing: \<open>a normalized (modifiers, key) pair. Equality is exact\<close>. A set of modifiers
  and a key name; equality is the equality of pairs.
\<close>

datatype modifier = Ctrl | Alt | Shift

type_synonym keybinding = "modifier set \<times> string"

text \<open>
  Modelled from the spec: the invocation effect of an Action, whose declaration is missing:
  \<open>a discriminated variant: run-shell-command | internal-command | open-menu\<close>.
\<close>

datatype effect = RunShellCommand string | InternalCommand string | OpenMenu string

text \<open>
  Modelled from the spec: the Action type, whose declaration is missing: \<open>identifier,
  display label, default keybinding, current keybinding (possibly overridden),
  enabled/disabled predicate, invocation effect\<close>. An Action that has lost its keybinding
  holds \<open>None\<close>.
\<close>

record action =
  ident :: string
  label :: string
  default_keybinding :: keybinding
  current_keybinding :: "keybinding option"
  enabled :: bool
  effect :: effect

text \<open>
  Modelled from the spec: the Action Registry, whose declaration is missing: it \<open>owns all
  Actions; insertion order is display order\<close>, so it is the list of its Actions.
\<close>

type_synonym registry = "action list"

text \<open>
  Modelled from the spec: the missing lookup of the keybinding an Action holds, by the
  Action's identifier.
\<close>

definition keybinding_of :: "registry \<Rightarrow> string \<Rightarrow> keybinding option" where
  "keybinding_of reg action_id =
     (case find (\<lambda>a. ident a = action_id) reg of
        None \<Rightarrow> None
      | Some a \<Rightarrow> current_keybinding a)"

text \<open>
  Modelled from the spec: the missing update that gives the Action with an identifier a
  keybinding, or takes its keybinding away (\<open>None\<close>).
\<close>

definition set_keybinding :: "string \<Rightarrow> keybinding option \<Rightarrow> registry \<Rightarrow> registry" where
  "set_keybinding action_id kb reg =
     map (\<lambda>a. if ident a = action_id then a\<lparr>current_keybinding := kb\<rparr> else a) reg"

text \<open>
  Modelled from the spec: the scan of the missing Conflict Resolver: \<open>given a candidate
  (action_id, new_keybinding), scan all other Actions for an equal Keybinding\<close>.
\<close>

definition colliding :: "registry \<Rightarrow> string \<Rightarrow> keybinding \<Rightarrow> action list" where
  "colliding reg action_id kb =
     filter (\<lambda>a. ident a \<noteq> action_id \<and> current_keybinding a = Some kb) reg"

text \<open>
  Modelled from the spec: the result of the missing Conflict Resolver: \<open>If zero matches:
  apply directly. If exactly one match on a different action: return a Conflict result
  naming the colliding action\<close>. The spec gives no result for more than one match, which it
  holds impossible; the model keeps that case apart.
\<close>

datatype resolution = Apply | Conflict string | MultipleConflicts "string list"

text \<open>
  Modelled from the spec: the missing Conflict Resolver, \<open>pure function over a proposed
  keybinding assignment and the current Action Registry\<close>: it returns a resolution and
  no registry.
\<close>

definition resolve :: "registry \<Rightarrow> string \<Rightarrow> keybinding \<Rightarrow> resolution" where
  "resolve reg action_id kb =
     (case colliding reg action_id kb of
        [] \<Rightarrow> Apply
      | [c] \<Rightarrow> Conflict (ident c)
      | cs \<Rightarrow> MultipleConflicts (map ident cs))"

text \<open>
  Modelled from the spec: the resolution strategies the missing resolver offers: \<open>swap
  (colliding action takes the rebinding action's previous keybinding), unbind (colliding
  action loses its keybinding), or cancel (no change)\<close>.
\<close>

datatype strategy = Swap | Unbind | Cancel

text \<open>
  Modelled from the spec: the missing function \<open>rebind\<close>, which \<open>MUST go through the
  Conflict Resolver first\<close>; \<open>decision\<close> is the caller's choice, used only on a
  Conflict. With swap and unbind the rebinding Action then takes the new keybinding, as in
  the spec's example (\<open>choosing "swap" results in A unbound and B bound to Ctrl+R\<close>).
\<close>

definition rebind :: "strategy \<Rightarrow> string \<Rightarrow> keybinding \<Rightarrow> registry \<Rightarrow> registry" where
  "rebind decision action_id kb reg =
     (case resolve reg action_id kb of
        Apply \<Rightarrow> set_keybinding action_id (Some kb) reg
      | Conflict other \<Rightarrow>
          (case decision of
             Swap \<Rightarrow>
               set_keybinding action_id (Some kb)
                 (set_keybinding other (keybinding_of reg action_id) reg)
           | Unbind \<Rightarrow> set_keybinding action_id (Some kb) (set_keybinding other None reg)
           | Cancel \<Rightarrow> reg)
      | MultipleConflicts others \<Rightarrow> reg)"

section \<open>Properties of the web client\<close>

lemma ulp_small: "m < 2 ^ 53 \<Longrightarrow> ulp m = 1"
  by simp

lemma ulp_two: "2 ^ 53 \<le> m \<Longrightarrow> m < 2 ^ 54 \<Longrightarrow> ulp m = 2"
proof -
  assume a: "2 ^ 53 \<le> m" "m < 2 ^ 54"
  then have "m div 2 < 2 ^ 53" by simp
  then have "ulp (m div 2) = 1" by (rule ulp_small)
  moreover have "ulp m = 2 * ulp (m div 2)" using a(1) by simp
  ultimately show ?thesis by simp
qed

lemma js_add_exact: "0 \<le> c \<Longrightarrow> c < 2 ^ 53 \<Longrightarrow> js_add c 1 = c + 1"
proof -
  assume c: "0 \<le> c" "c < 2 ^ 53"
  show ?thesis
  proof (cases "c + 1 < 2 ^ 53")
    case True
    with c show ?thesis by (simp add: js_add_def round_to_double_def)
  next
    case False
    with c have e: "c + 1 = 2 ^ 53" by simp
    have u: "ulp (nat (2 ^ 53 :: int)) = 2" by (rule ulp_two) simp_all
    show ?thesis unfolding js_add_def e round_to_double_def Let_def using u by simp
  qed
qed

lemma js_add_stuck: "js_add (2 ^ 53) 1 = 2 ^ 53"
proof -
  have u: "ulp (nat (2 ^ 53 + 1 :: int)) = 2" by (rule ulp_two) simp_all
  have a: "\<bar>2 ^ 53 + 1 :: int\<bar> = 2 ^ 53 + 1" by simp
  show ?thesis unfolding js_add_def round_to_double_def Let_def a u by simp
qed

lemma count_clicks: "count (clicks n) = int (min n (2 ^ 53))"
proof (induction n)
  case 0
  show ?case by (simp add: clicks_def App_def)
next
  case (Suc n)
  have step: "count (clicks (Suc n)) = js_add (count (clicks n)) 1"
    by (simp add: clicks_def onClick_def setCount_def)
  show ?case
  proof (cases "n < 2 ^ 53")
    case True
    then have "count (clicks n) = int n" using Suc.IH by simp
    moreover have "int n < 2 ^ 53" using True by (simp flip: of_nat_less_iff)
    ultimately have "count (clicks (Suc n)) = int n + 1"
      using step js_add_exact [of "int n"] by simp
    then show ?thesis using True by simp
  next
    case False
    then have "count (clicks n) = 2 ^ 53" using Suc.IH by simp
    then have "count (clicks (Suc n)) = 2 ^ 53" using step js_add_stuck by simp
    then show ?thesis using False by simp
  qed
qed

lemma onClick_clicks: "count (onClick (clicks n)) = int (min (n + 1) (2 ^ 53))"
proof -
  have "onClick (clicks n) = clicks (Suc n)"
    by (simp add: clicks_def)
  then show ?thesis
    by (simp only: count_clicks Suc_eq_plus1)
qed

text \<open>
  C9 (as amended). The signal starts at \<open>0\<close>; the count is never negative; up to
  \<open>2^53\<close> clicks the count shown equals the number of clicks, and every click made
  while fewer than \<open>2^53\<close> clicks were counted adds exactly one.
\<close>

theorem App_counter:
  "count App = 0 \<and> 0 \<le> count (clicks n) \<and>
   (n \<le> 2 ^ 53 \<longrightarrow> count (clicks n) = int n) \<and>
   (n < 2 ^ 53 \<longrightarrow> count (onClick (clicks n)) = count (clicks n) + 1)"
  by (simp add: count_clicks onClick_clicks App_def)

theorem App_counter_witness:
  "(3::nat) \<le> 2 ^ 53 \<and> (3::nat) < 2 ^ 53 \<and> count (clicks 3) = 3 \<and>
   count (onClick (clicks 3)) = 4 \<and> count App = 0"
  using App_counter [of 3] by simp

text \<open>
  C9 as stated fails: a double cannot tell \<open>2^53 + 1\<close> from \<open>2^53\<close>, so the click
  after the \<open>2^53\<close>-th leaves the count where it was.
\<close>

theorem App_counter_counterexample:
  "count (clicks (2 ^ 53 + 1)) \<noteq> int (2 ^ 53 + 1) \<and>
   count (onClick (clicks (2 ^ 53))) \<noteq> count (clicks (2 ^ 53)) + 1"
  by (simp add: count_clicks onClick_clicks)

section \<open>Properties of the Conflict Resolver\<close>

lemma ident_set_keybinding:
  "map ident (set_keybinding i v reg) = map ident reg"
  by (induction reg) (simp_all add: set_keybinding_def)

lemma keybinding_of_set_same:
  "i \<in> ident ` set reg \<Longrightarrow> keybinding_of (set_keybinding i v reg) i = v"
  by (induction reg) (auto simp: set_keybinding_def keybinding_of_def)

lemma keybinding_of_set_other:
  "i \<noteq> j \<Longrightarrow> keybinding_of (set_keybinding j v reg) i = keybinding_of reg i"
  by (induction reg) (auto simp: set_keybinding_def keybinding_of_def)

lemma filter_single:
  "k < length xs \<Longrightarrow> P (xs ! k) \<Longrightarrow> (\<And>j. j < length xs \<Longrightarrow> P (xs ! j) \<Longrightarrow> j = k) \<Longrightarrow>
   filter P xs = [xs ! k]"
proof (induction xs arbitrary: k)
  case Nil
  then show ?case by simp
next
  case (Cons z zs)
  show ?case
  proof (cases k)
    case 0
    have "\<not> P y" if "y \<in> set zs" for y
    proof
      assume "P y"
      from that obtain j where j: "j < length zs" "zs ! j = y"
        by (auto simp: in_set_conv_nth)
      then have "Suc j = k"
        using Cons.prems(3) [of "Suc j"] \<open>P y\<close> by simp
      then show False using 0 by simp
    qed
    then have "filter P zs = []" by (simp add: filter_empty_conv)
    then show ?thesis using 0 Cons.prems(2) by simp
  next
    case (Suc m)
    have "\<not> P z"
    proof
      assume "P z"
      then have "0 = k" using Cons.prems(3) [of 0] by simp
      then show False using Suc by simp
    qed
    moreover have "filter P zs = [zs ! m]"
    proof (rule Cons.IH)
      show "m < length zs" using Cons.prems(1) Suc by simp
      show "P (zs ! m)" using Cons.prems(2) Suc by simp
      show "j = m" if "j < length zs" "P (zs ! j)" for j
        using that Cons.prems(3) [of "Suc j"] Suc by simp
    qed
    ultimately show ?thesis using Suc by simp
  qed
qed

lemma resolve_Apply:
  assumes "\<forall>a \<in> set reg. ident a \<noteq> i \<longrightarrow> current_keybinding a \<noteq> Some kb"
  shows "resolve reg i kb = Apply"
proof -
  have "colliding reg i kb = []"
    unfolding colliding_def filter_empty_conv using assms by blast
  then show ?thesis by (simp add: resolve_def)
qed

lemma resolve_Conflict:
  assumes "k < length reg"
    and "ident (reg ! k) \<noteq> i" and "current_keybinding (reg ! k) = Some kb"
    and "\<forall>j < length reg. ident (reg ! j) \<noteq> i \<and> current_keybinding (reg ! j) = Some kb \<longrightarrow> j = k"
  shows "resolve reg i kb = Conflict (ident (reg ! k))"
proof -
  have "colliding reg i kb = [reg ! k]"
    unfolding colliding_def
  proof (rule filter_single)
    show "k < length reg" by (rule assms(1))
    show "ident (reg ! k) \<noteq> i \<and> current_keybinding (reg ! k) = Some kb"
      using assms(2,3) by simp
    show "j = k"
      if "j < length reg" "ident (reg ! j) \<noteq> i \<and> current_keybinding (reg ! j) = Some kb" for j
      using that assms(4) by blast
  qed
  then show ?thesis by (simp add: resolve_def)
qed

text \<open>
  C2. For every registry, every candidate \<open>(action_id, kb)\<close> and every decision \<open>d\<close> of
  the caller: if no other Action holds \<open>kb\<close>, the resolver answers \<open>Apply\<close> and \<open>rebind\<close>
  gives the Action \<open>kb\<close> and changes the keybinding of no other Action; if exactly one
  other Action, the one at position \<open>k\<close>, holds \<open>kb\<close>, the resolver answers with a Conflict
  naming it (the resolver returns no registry, so nothing has changed by then), and then
  swap gives that Action the previous keybinding of the rebinding Action, which takes
  \<open>kb\<close>, unbind leaves that Action without a keybinding, and cancel leaves the registry
  as it was.
\<close>

theorem conflict_resolver_correct:
  "((\<forall>a \<in> set reg. ident a \<noteq> action_id \<longrightarrow> current_keybinding a \<noteq> Some kb) \<longrightarrow>
      resolve reg action_id kb = Apply \<and>
      (action_id \<in> ident ` set reg \<longrightarrow>
         keybinding_of (rebind d action_id kb reg) action_id = Some kb) \<and>
      (\<forall>i. i \<noteq> action_id \<longrightarrow>
         keybinding_of (rebind d action_id kb reg) i = keybinding_of reg i)) \<and>
   (\<forall>k. k < length reg \<and> ident (reg ! k) \<noteq> action_id \<and>
        current_keybinding (reg ! k) = Some kb \<and>
        (\<forall>j < length reg. ident (reg ! j) \<noteq> action_id \<and>
           current_keybinding (reg ! j) = Some kb \<longrightarrow> j = k) \<longrightarrow>
      resolve reg action_id kb = Conflict (ident (reg ! k)) \<and>
      keybinding_of (rebind Swap action_id kb reg) (ident (reg ! k)) =
        keybinding_of reg action_id \<and>
      (action_id \<in> ident ` set reg \<longrightarrow>
         keybinding_of (rebind Swap action_id kb reg) action_id = Some kb) \<and>
      keybinding_of (rebind Unbind action_id kb reg) (ident (reg ! k)) = None \<and>
      rebind Cancel action_id kb reg = reg)"
proof (intro conjI impI allI)
  assume "\<forall>a \<in> set reg. ident a \<noteq> action_id \<longrightarrow> current_keybinding a \<noteq> Some kb"
  then show r: "resolve reg action_id kb = Apply" by (rule resolve_Apply)
  show "keybinding_of (rebind d action_id kb reg) action_id = Some kb"
    if "action_id \<in> ident ` set reg"
    using that by (simp add: rebind_def r keybinding_of_set_same)
  show "keybinding_of (rebind d action_id kb reg) i = keybinding_of reg i"
    if "i \<noteq> action_id" for i
    using that by (simp add: rebind_def r keybinding_of_set_other)
next
  fix k
  assume c: "k < length reg \<and> ident (reg ! k) \<noteq> action_id \<and>
    current_keybinding (reg ! k) = Some kb \<and>
    (\<forall>j < length reg. ident (reg ! j) \<noteq> action_id \<and>
       current_keybinding (reg ! j) = Some kb \<longrightarrow> j = k)"
  then show r: "resolve reg action_id kb = Conflict (ident (reg ! k))"
    by (intro resolve_Conflict) blast+
  have cin: "ident (reg ! k) \<in> ident ` set reg" using c by simp
  have ne: "ident (reg ! k) \<noteq> action_id" using c by simp
  show "keybinding_of (rebind Swap action_id kb reg) (ident (reg ! k)) = keybinding_of reg action_id"
    using ne cin by (simp add: rebind_def r keybinding_of_set_other keybinding_of_set_same)
  show "keybinding_of (rebind Swap action_id kb reg) action_id = Some kb"
    if "action_id \<in> ident ` set reg"
  proof -
    have "action_id \<in> set (map ident
        (set_keybinding (ident (reg ! k)) (keybinding_of reg action_id) reg))"
      using that by (simp only: ident_set_keybinding) simp
    then show ?thesis
      by (simp add: rebind_def r keybinding_of_set_same)
  qed
  show "keybinding_of (rebind Unbind action_id kb reg) (ident (reg ! k)) = None"
    using ne cin by (simp add: rebind_def r keybinding_of_set_other keybinding_of_set_same)
  show "rebind Cancel action_id kb reg = reg"
    by (simp add: rebind_def r)
qed

text \<open>
  The spec's example: Action A (here \<open>run\<close>) is bound to Ctrl+R and Action B (here
  \<open>build\<close>) is unbound. Rebinding B to Ctrl+R returns a Conflict naming A; swap leaves A
  unbound and B bound to Ctrl+R; cancel changes nothing. Rebinding B to Alt+B, which no
  Action holds, is applied directly.
\<close>

theorem conflict_resolver_correct_witness:
  "resolve
     [\<lparr>ident = ''run'', label = ''Run'', default_keybinding = ({Ctrl}, ''r''), current_keybinding = Some ({Ctrl}, ''r''), enabled = True, effect = RunShellCommand ''cargo run''\<rparr>,
      \<lparr>ident = ''build'', label = ''Build'', default_keybinding = ({Ctrl}, ''b''), current_keybinding = None, enabled = True, effect = RunShellCommand ''cargo build''\<rparr>] ''build'' ({Ctrl}, ''r'') = Conflict ''run'' \<and>
   keybinding_of (rebind Swap ''build'' ({Ctrl}, ''r'')
     [\<lparr>ident = ''run'', label = ''Run'', default_keybinding = ({Ctrl}, ''r''), current_keybinding = Some ({Ctrl}, ''r''), enabled = True, effect = RunShellCommand ''cargo run''\<rparr>,
      \<lparr>ident = ''build'', label = ''Build'', default_keybinding = ({Ctrl}, ''b''), current_keybinding = None, enabled = True, effect = RunShellCommand ''cargo build''\<rparr>]) ''run'' = None \<and>
   keybinding_of (rebind Swap ''build'' ({Ctrl}, ''r'')
     [\<lparr>ident = ''run'', label = ''Run'', default_keybinding = ({Ctrl}, ''r''), current_keybinding = Some ({Ctrl}, ''r''), enabled = True, effect = RunShellCommand ''cargo run''\<rparr>,
      \<lparr>ident = ''build'', label = ''Build'', default_keybinding = ({Ctrl}, ''b''), current_keybinding = None, enabled = True, effect = RunShellCommand ''cargo build''\<rparr>]) ''build'' = Some ({Ctrl}, ''r'') \<and>
   keybinding_of (rebind Unbind ''build'' ({Ctrl}, ''r'')
     [\<lparr>ident = ''run'', label = ''Run'', default_keybinding = ({Ctrl}, ''r''), current_keybinding = Some ({Ctrl}, ''r''), enabled = True, effect = RunShellCommand ''cargo run''\<rparr>,
      \<lparr>ident = ''build'', label = ''Build'', default_keybinding = ({Ctrl}, ''b''), current_keybinding = None, enabled = True, effect = RunShellCommand ''cargo build''\<rparr>]) ''run'' = None \<and>
   rebind Cancel ''build'' ({Ctrl}, ''r'')
     [\<lparr>ident = ''run'', label = ''Run'', default_keybinding = ({Ctrl}, ''r''), current_keybinding = Some ({Ctrl}, ''r''), enabled = True, effect = RunShellCommand ''cargo run''\<rparr>,
      \<lparr>ident = ''build'', label = ''Build'', default_keybinding = ({Ctrl}, ''b''), current_keybinding = None, enabled = True, effect = RunShellCommand ''cargo build''\<rparr>] =
     [\<lparr>ident = ''run'', label = ''Run'', default_keybinding = ({Ctrl}, ''r''), current_keybinding = Some ({Ctrl}, ''r''), enabled = True, effect = RunShellCommand ''cargo run''\<rparr>,
      \<lparr>ident = ''build'', label = ''Build'', default_keybinding = ({Ctrl}, ''b''), current_keybinding = None, enabled = True, effect = RunShellCommand ''cargo build''\<rparr>] \<and>
   resolve
     [\<lparr>ident = ''run'', label = ''Run'', default_keybinding = ({Ctrl}, ''r''), current_keybinding = Some ({Ctrl}, ''r''), enabled = True, effect = RunShellCommand ''cargo run''\<rparr>,
      \<lparr>ident = ''build'', label = ''Build'', default_keybinding = ({Ctrl}, ''b''), current_keybinding = None, enabled = True, effect = RunShellCommand ''cargo build''\<rparr>] ''build'' ({Alt}, ''b'') = Apply \<and>
   keybinding_of (rebind Cancel ''build'' ({Alt}, ''b'')
     [\<lparr>ident = ''run'', label = ''Run'', default_keybinding = ({Ctrl}, ''r''), current_keybinding = Some ({Ctrl}, ''r''), enabled = True, effect = RunShellCommand ''cargo run''\<rparr>,
      \<lparr>ident = ''build'', label = ''Build'', default_keybinding = ({Ctrl}, ''b''), current_keybinding = None, enabled = True, effect = RunShellCommand ''cargo build''\<rparr>]) ''build'' = Some ({Alt}, ''b'')"
proof -
  let ?A = "\<lparr>ident = ''run'', label = ''Run'', default_keybinding = ({Ctrl}, ''r''), current_keybinding = Some ({Ctrl}, ''r''), enabled = True, effect = RunShellCommand ''cargo run''\<rparr>"
  let ?B = "\<lparr>ident = ''build'', label = ''Build'', default_keybinding = ({Ctrl}, ''b''), current_keybinding = None, enabled = True, effect = RunShellCommand ''cargo build''\<rparr>"
  have k: "keybinding_of [?A, ?B] ''build'' = None" by (simp add: keybinding_of_def)
  have one: "0 < length [?A, ?B] \<and> ident ([?A, ?B] ! 0) \<noteq> ''build'' \<and>
      current_keybinding ([?A, ?B] ! 0) = Some ({Ctrl}, ''r'') \<and>
      (\<forall>j < length [?A, ?B]. ident ([?A, ?B] ! j) \<noteq> ''build'' \<and>
         current_keybinding ([?A, ?B] ! j) = Some ({Ctrl}, ''r'') \<longrightarrow> j = 0)"
    by (simp add: nth_Cons')
  have zero: "\<forall>a \<in> set [?A, ?B]. ident a \<noteq> ''build'' \<longrightarrow> current_keybinding a \<noteq> Some ({Alt}, ''b'')"
    by simp
  have mem: "''build'' \<in> ident ` set [?A, ?B]" by simp
  have c: "resolve [?A, ?B] ''build'' ({Ctrl}, ''r'') = Conflict (ident ([?A, ?B] ! 0)) \<and>
      keybinding_of (rebind Swap ''build'' ({Ctrl}, ''r'') [?A, ?B]) (ident ([?A, ?B] ! 0)) =
        keybinding_of [?A, ?B] ''build'' \<and>
      (''build'' \<in> ident ` set [?A, ?B] \<longrightarrow>
         keybinding_of (rebind Swap ''build'' ({Ctrl}, ''r'') [?A, ?B]) ''build'' = Some ({Ctrl}, ''r'')) \<and>
      keybinding_of (rebind Unbind ''build'' ({Ctrl}, ''r'') [?A, ?B]) (ident ([?A, ?B] ! 0)) = None \<and>
      rebind Cancel ''build'' ({Ctrl}, ''r'') [?A, ?B] = [?A, ?B]"
    using conflict_resolver_correct [of "[?A, ?B]" "''build''" "({Ctrl}, ''r'')" Swap] one by blast
  have a: "resolve [?A, ?B] ''build'' ({Alt}, ''b'') = Apply \<and>
      (''build'' \<in> ident ` set [?A, ?B] \<longrightarrow>
         keybinding_of (rebind Cancel ''build'' ({Alt}, ''b'') [?A, ?B]) ''build'' = Some ({Alt}, ''b''))"
    using conflict_resolver_correct [of "[?A, ?B]" "''build''" "({Alt}, ''b'')" Cancel] zero by blast
  have i: "ident ([?A, ?B] ! 0) = ''run''" by simp
  show ?thesis
    using c a mem unfolding k i by blast
qed

end
